theory Spec2Isabelle
  imports Complex_Main "HOL-Library.Word"
begin

section \<open>The value model of myjson.hpp\<close>

text \<open>
  The discriminant \<^verbatim>\<open>enum class JsonType\<close> and the class hierarchy rooted in
  \<^verbatim>\<open>JsonNode\<close>. The base class itself stands for null; each derived class adds one
  payload. The hierarchy is closed, so it becomes one datatype whose constructors carry
  the names of the classes. The payload of a number is a C++ \<^verbatim>\<open>double\<close>; the model
  leaves its type open (\<open>'d\<close>). An \<^verbatim>\<open>unordered_map\<close> is a map from keys to nodes.
\<close>

datatype JsonType = NIL | STRING | NUMBER | BOOL | ARRAY | OBJECT

datatype 'd JsonNode =
    JsonNode
  | JsonString string
  | JsonDouble 'd
  | JsonBool bool
  | JsonArray "'d JsonNode list"
  | JsonObject "string \<Rightarrow> 'd JsonNode option"

text \<open>
  Every \<^verbatim>\<open>throw(std::runtime_error(...))\<close> of the file, one constructor per message.
\<close>

datatype error =
    not_a_string
  | not_a_double
  | not_a_bool
  | not_an_array
  | not_an_object
  | could_not_write_to_file
  | misspelled_true
  | misspelled_false
  | misspelled_null
  | expected_colon
  | unexpected_character

text \<open>
  The errors of the accessors: the specification calls them \<open>TypeMismatch\<close>.
\<close>

fun TypeMismatch :: "error \<Rightarrow> bool" where
  "TypeMismatch not_a_string = True"
| "TypeMismatch not_a_double = True"
| "TypeMismatch not_a_bool = True"
| "TypeMismatch not_an_array = True"
| "TypeMismatch not_an_object = True"
| "TypeMismatch _ = False"

text \<open>
  The virtual accessors. The base class throws in each of them; a derived class overrides
  \<^verbatim>\<open>get_type\<close> and the one accessor of its payload. The C++ accessors return a
  reference to the payload; the model returns the payload.
\<close>

fun get_type :: "'d JsonNode \<Rightarrow> JsonType" where
  "get_type JsonNode = NIL"
| "get_type (JsonString contents) = STRING"
| "get_type (JsonDouble v) = NUMBER"
| "get_type (JsonBool v) = BOOL"
| "get_type (JsonArray contents) = ARRAY"
| "get_type (JsonObject contents) = OBJECT"

fun get_string :: "'d JsonNode \<Rightarrow> error + string" where
  "get_string (JsonString contents) = Inr contents"
| "get_string _ = Inl not_a_string"

fun get_double :: "'d JsonNode \<Rightarrow> error + 'd" where
  "get_double (JsonDouble v) = Inr v"
| "get_double _ = Inl not_a_double"

fun get_bool :: "'d JsonNode \<Rightarrow> error + bool" where
  "get_bool (JsonBool v) = Inr v"
| "get_bool _ = Inl not_a_bool"

fun get_vector :: "'d JsonNode \<Rightarrow> error + 'd JsonNode list" where
  "get_vector (JsonArray contents) = Inr contents"
| "get_vector _ = Inl not_an_array"

fun get_object :: "'d JsonNode \<Rightarrow> error + (string \<Rightarrow> 'd JsonNode option)" where
  "get_object (JsonObject contents) = Inr contents"
| "get_object _ = Inl not_an_object"

section \<open>The input stream\<close>

text \<open>
  The parser reads a \<^verbatim>\<open>std::istream\<close> through \<^verbatim>\<open>get()\<close> and \<^verbatim>\<open>unget()\<close> only. The
  model keeps the characters already extracted (the last one first), the characters
  still to come, and the fail bit. \<^verbatim>\<open>get()\<close> at the end of the input returns
  \<^verbatim>\<open>EOF\<close> (here \<open>None\<close>) and sets the fail bit; on a stream whose fail bit is set,
  \<^verbatim>\<open>get()\<close> returns \<^verbatim>\<open>EOF\<close> again and \<^verbatim>\<open>unget()\<close> does nothing. The parser never
  clears the bit.
\<close>

datatype istream = Istream (consumed: string) (pending: string) (failbit: bool)

definition istream_of :: "string \<Rightarrow> istream" where
  "istream_of txt = Istream [] txt False"

fun istream_get :: "istream \<Rightarrow> char option \<times> istream" where
  "istream_get (Istream k p True) = (None, Istream k p True)"
| "istream_get (Istream k [] False) = (None, Istream k [] True)"
| "istream_get (Istream k (c # cs) False) = (Some c, Istream (c # k) cs False)"

fun unget :: "istream \<Rightarrow> istream" where
  "unget (Istream k p True) = Istream k p True"
| "unget (Istream [] p False) = Istream [] p True"
| "unget (Istream (c # k) p False) = Istream k (c # p) False"

definition good :: "istream \<Rightarrow> bool" where
  "good s \<longleftrightarrow> \<not> failbit s"

text \<open>
  \<^verbatim>\<open>char letter = in.get()\<close> narrows the \<^verbatim>\<open>int\<close> that \<^verbatim>\<open>get()\<close> returns to a
  \<^verbatim>\<open>char\<close>: \<^verbatim>\<open>EOF\<close>, which is -1, becomes the byte 0xFF. The test
  \<^verbatim>\<open>letter == EOF\<close> of the dispatch is modelled for a signed \<^verbatim>\<open>char\<close> (x86), where
  the byte 0xFF compares equal to -1.
\<close>

fun to_char :: "char option \<Rightarrow> char" where
  "to_char None = CHR 0xFF"
| "to_char (Some c) = c"

abbreviation DQ :: char where "DQ \<equiv> CHR 0x22"
abbreviation BSL :: char where "BSL \<equiv> CHR 0x5C"
abbreviation NL :: char where "NL \<equiv> CHR 0x0A"
abbreviation TAB :: char where "TAB \<equiv> CHR 0x09"

section \<open>The parser\<close>

subsection \<open>The lambda \<^verbatim>\<open>read_string\<close>\<close>

text \<open>
  The body of \<^verbatim>\<open>if (letter == '\\')\<close>: each of the three comparisons calls
  \<^verbatim>\<open>in.get()\<close> itself, so each one extracts a further character.
\<close>

definition read_escape :: "string \<Rightarrow> istream \<Rightarrow> string \<times> istream" where
  "read_escape collected s =
     (let (c1, s1) = istream_get s in
      if c1 = Some DQ then (collected @ [DQ], s1)
      else let (c2, s2) = istream_get s1 in
        if c2 = Some CHR ''n'' then (collected @ [NL], s2)
        else let (c3, s3) = istream_get s2 in
          if c3 = Some BSL then (collected @ [BSL], s3)
          else (collected, s3))"

text \<open>
  The loop \<^verbatim>\<open>while (letter != '"')\<close>. It has no test for the end of the input, so
  it is a partial function: \<open>None\<close> stands for a loop that never returns.
\<close>

partial_function (option) read_string_loop ::
  "char \<Rightarrow> string \<Rightarrow> istream \<Rightarrow> (string \<times> istream) option" where
  "read_string_loop letter collected s =
     (if letter \<noteq> DQ then
        (let (collected1, s1) =
               (if letter = BSL then read_escape collected s
                else (collected @ [letter], s));
             (c, s2) = istream_get s1
         in read_string_loop (to_char c) collected1 s2)
      else Some (collected, s))"

declare read_string_loop.simps [code]

definition read_string :: "istream \<Rightarrow> (string \<times> istream) option" where
  "read_string s = (let (c, s1) = istream_get s in read_string_loop (to_char c) [] s1)"

subsection \<open>The lambda \<^verbatim>\<open>read_whitespace\<close>\<close>

definition is_separator :: "char \<Rightarrow> bool" where
  "is_separator letter \<longleftrightarrow>
     letter = CHR '' '' \<or> letter = TAB \<or> letter = NL \<or> letter = CHR '',''"

function read_whitespace :: "istream \<Rightarrow> char \<times> istream" where
  "read_whitespace s =
     (let (c, s1) = istream_get s; letter = to_char c in
      if is_separator letter then read_whitespace s1 else (letter, s1))"
  by pat_completeness auto
termination
proof (relation "measure (\<lambda>s. length (pending s))")
  show "wf (measure (\<lambda>s. length (pending s)))" by simp
next
  fix s :: istream and x :: "char option \<times> istream" and c s1 letter
  assume "x = istream_get s" "(c, s1) = x" "letter = to_char c" "is_separator letter"
  then show "(s1, s) \<in> measure (\<lambda>s. length (pending s))"
    by (cases s rule: istream_get.cases) (auto simp: is_separator_def)
qed

subsection \<open>The scan of a number\<close>

text \<open>
  \<^verbatim>\<open>letter >= '0' && letter <= '9'\<close>, and the condition of the \<^verbatim>\<open>do ... while\<close> loop
  that collects the text of a number. The loop appends every character it extracts,
  the one that ends it too (at the end of the input, the byte 0xFF).
\<close>

definition is_digit :: "char \<Rightarrow> bool" where
  "is_digit letter \<longleftrightarrow> (48::nat) \<le> of_char letter \<and> of_char letter \<le> (57::nat)"

definition is_numeric :: "char \<Rightarrow> bool" where
  "is_numeric letter \<longleftrightarrow>
     letter = CHR ''-'' \<or> letter = CHR ''E'' \<or> letter = CHR ''e'' \<or> letter = CHR '',''
     \<or> letter = CHR ''.'' \<or> is_digit letter"

function scan_number :: "string \<Rightarrow> istream \<Rightarrow> string \<times> istream" where
  "scan_number asString s =
     (let (c, s1) = istream_get s; letter = to_char c; asString1 = asString @ [letter] in
      if is_numeric letter then scan_number asString1 s1 else (asString1, s1))"
  by pat_completeness auto
termination
proof (relation "measure (\<lambda>(a, s). length (pending s))")
  show "wf (measure (\<lambda>(a, s). length (pending s)))" by simp
next
  fix asString :: string and s :: istream and x :: "char option \<times> istream"
    and c s1 letter asString1
  assume "x = istream_get s" "(c, s1) = x" "letter = to_char c" "is_numeric letter"
  then show "((asString1, s1), (asString, s)) \<in> measure (\<lambda>(a, s). length (pending s))"
    by (cases s rule: istream_get.cases) (auto simp: is_numeric_def is_digit_def)
qed

subsection \<open>The keywords\<close>

text \<open>
  \<^verbatim>\<open>in.get() == 'r' && in.get() == 'u' && in.get() == 'e'\<close>: the conjunction stops
  extracting at the first character that differs.
\<close>

fun expect :: "string \<Rightarrow> istream \<Rightarrow> bool \<times> istream" where
  "expect [] s = (True, s)"
| "expect (c # cs) s =
     (let (g, s1) = istream_get s in if g = Some c then expect cs s1 else (False, s1))"

subsection \<open>\<^verbatim>\<open>parse_json(std::istream&)\<close>\<close>

text \<open>
  The function calls itself from inside its two \<^verbatim>\<open>do ... while\<close> loops, and the loops
  go on with the stream the call leaves behind. One partial function covers the three
  entry points: the function itself (\<open>Value\<close>), one turn of the loop of the object branch
  with the entries read so far, and one turn of the loop of the array branch with the
  elements read so far. The result is \<open>None\<close> when the code does not return,
  \<open>Some (Inl e)\<close> when it throws, and otherwise the node together with the stream as the
  call leaves it. The conversion \<^verbatim>\<open>parsing >> number\<close> of the standard library is the
  parameter \<open>stod\<close>.

  After a turn of the object loop \<^verbatim>\<open>letter\<close> holds the colon, after a turn of the array
  loop the opening brace, so neither \<^verbatim>\<open>while\<close> condition ever fails; the model keeps
  both tests as they are written.
\<close>

datatype 'd task =
    Value
  | ObjectLoop "string \<Rightarrow> 'd JsonNode option"
  | ArrayLoop "'d JsonNode list"

partial_function (option) parse_task ::
  "(string \<Rightarrow> 'd) \<Rightarrow> 'd task \<Rightarrow> istream \<Rightarrow> (error + 'd JsonNode \<times> istream) option" where
  "parse_task stod t s =
     (case t of
        Value \<Rightarrow>
          (let (letter, s1) = read_whitespace s in
           if letter = CHR 0x00 \<or> letter = CHR 0xFF then Some (Inr (JsonNode, s1))
           else if letter = DQ then
             Option.bind (read_string s1)
               (\<lambda>(collected, s2). Some (Inr (JsonString collected, s2)))
           else if letter = CHR ''t'' then
             (let (ok, s2) = expect ''rue'' s1 in
              if ok then Some (Inr (JsonBool True, s2)) else Some (Inl misspelled_true))
           else if letter = CHR ''f'' then
             (let (ok, s2) = expect ''alse'' s1 in
              if ok then Some (Inr (JsonBool False, s2)) else Some (Inl misspelled_false))
           else if letter = CHR ''n'' then
             (let (ok, s2) = expect ''ull'' s1 in
              if ok then Some (Inr (JsonNode, s2)) else Some (Inl misspelled_null))
           else if letter = CHR ''-'' \<or> is_digit letter then
             (let (asString, s2) = scan_number [letter] s1 in
              Some (Inr (JsonDouble (stod asString), unget s2)))
           else if letter = CHR ''{'' then parse_task stod (ObjectLoop Map.empty) s1
           else if letter = CHR ''['' then parse_task stod (ArrayLoop []) s1
           else Some (Inl unexpected_character))
      | ObjectLoop contents \<Rightarrow>
          (let (letter, s1) = read_whitespace s in
           if letter = DQ then
             Option.bind (read_string s1) (\<lambda>(name, s2).
               let (letter2, s3) = read_whitespace s2 in
               if letter2 \<noteq> CHR '':'' then Some (Inl expected_colon)
               else Option.bind (parse_task stod Value s3) (\<lambda>r.
                 case r of
                   Inl e \<Rightarrow> Some (Inl e)
                 | Inr (v, s4) \<Rightarrow>
                     if letter2 \<noteq> CHR ''}''
                     then parse_task stod (ObjectLoop (contents(name \<mapsto> v))) s4
                     else Some (Inr (JsonObject (contents(name \<mapsto> v)), s4))))
           else Some (Inr (JsonObject contents, s1)))
      | ArrayLoop contents \<Rightarrow>
          (let (letter, s1) = read_whitespace s in
           if letter = CHR ''{'' then
             Option.bind (parse_task stod Value (unget s1)) (\<lambda>r.
               case r of
                 Inl e \<Rightarrow> Some (Inl e)
               | Inr (v, s2) \<Rightarrow>
                   if letter \<noteq> CHR '']''
                   then parse_task stod (ArrayLoop (contents @ [v])) s2
                   else Some (Inr (JsonArray (contents @ [v]), s2)))
           else Some (Inr (JsonArray contents, s1))))"

declare parse_task.simps [code]

definition parse_json ::
  "(string \<Rightarrow> 'd) \<Rightarrow> istream \<Rightarrow> (error + 'd JsonNode \<times> istream) option" where
  "parse_json stod s = parse_task stod Value s"

definition object_loop ::
  "(string \<Rightarrow> 'd) \<Rightarrow> (string \<Rightarrow> 'd JsonNode option) \<Rightarrow> istream
     \<Rightarrow> (error + 'd JsonNode \<times> istream) option" where
  "object_loop stod contents s = parse_task stod (ObjectLoop contents) s"

definition array_loop ::
  "(string \<Rightarrow> 'd) \<Rightarrow> 'd JsonNode list \<Rightarrow> istream
     \<Rightarrow> (error + 'd JsonNode \<times> istream) option" where
  "array_loop stod contents s = parse_task stod (ArrayLoop contents) s"

subsection \<open>\<^verbatim>\<open>parse_json(const std::string& filename)\<close>\<close>

text \<open>
  The files that can be opened for reading are a map from paths to contents. The
  constructor of \<^verbatim>\<open>std::ifstream\<close> sets the fail bit when it cannot open the path. The
  stream is local to the function, so only the node (or the error) comes back.
\<close>

definition ifstream :: "(string \<Rightarrow> string option) \<Rightarrow> string \<Rightarrow> istream" where
  "ifstream files filename =
     (case files filename of
        None \<Rightarrow> Istream [] [] True
      | Some txt \<Rightarrow> Istream [] txt False)"

definition parse_json_file ::
  "(string \<Rightarrow> 'd) \<Rightarrow> (string \<Rightarrow> string option) \<Rightarrow> string \<Rightarrow> (error + 'd JsonNode) option" where
  "parse_json_file stod files filename =
     (let inp = ifstream files filename in
      if \<not> good inp then Some (Inr JsonNode)
      else map_option (map_sum id fst) (parse_json stod inp))"

subsection \<open>The conversion of the text of a number\<close>

text \<open>
  Modelled from the spec: the conversion \<^verbatim>\<open>parsing >> number\<close> of the C++ standard
  library, which is no code of the repository. The specification asks for a "lenient
  numeric scan, trailing junk ignored by the number-text-to-double conversion": the
  model reads the longest prefix of the form sign, digits, fraction, exponent and returns
  the number it denotes, as a real number (the rounding to a \<^verbatim>\<open>double\<close> is left out),
  and 0 when no digit is found. Only theorems that name a concrete number use it.
\<close>

fun digits_value :: "nat \<Rightarrow> string \<Rightarrow> nat" where
  "digits_value n [] = n"
| "digits_value n (c # cs) = digits_value (10 * n + (of_char c - 48)) cs"

definition text_to_double :: "string \<Rightarrow> real" where
  "text_to_double txt =
     (let (negative, t1) =
            (case txt of
               [] \<Rightarrow> (False, [])
             | c # cs \<Rightarrow> if c = CHR ''-'' then (True, cs)
                         else if c = CHR ''+'' then (False, cs) else (False, txt));
          whole = takeWhile is_digit t1;
          t2 = dropWhile is_digit t1;
          (frac, t3) =
            (case t2 of
               [] \<Rightarrow> ([], [])
             | c # cs \<Rightarrow> if c = CHR ''.'' then (takeWhile is_digit cs, dropWhile is_digit cs)
                         else ([], t2));
          (exp_negative, exp_digits) =
            (case t3 of
               [] \<Rightarrow> (False, [])
             | c # cs \<Rightarrow>
                 if c = CHR ''e'' \<or> c = CHR ''E'' then
                   (case cs of
                      [] \<Rightarrow> (False, [])
                    | d # ds \<Rightarrow> if d = CHR ''-'' then (True, takeWhile is_digit ds)
                                else if d = CHR ''+'' then (False, takeWhile is_digit ds)
                                else (False, takeWhile is_digit cs))
                 else (False, []));
          mantissa = real (digits_value 0 (whole @ frac)) / 10 ^ length frac;
          scaled = (if exp_negative then mantissa / 10 ^ digits_value 0 exp_digits
                    else mantissa * 10 ^ digits_value 0 exp_digits)
      in if whole = [] \<and> frac = [] then 0
         else if negative then - scaled else scaled)"

section \<open>The serializer\<close>

text \<open>
  The output stream is the text written so far; every function returns it extended.
  \<^verbatim>\<open>write_string\<close> and \<^verbatim>\<open>indent\<close> are the two static helpers of \<^verbatim>\<open>JsonNode\<close>.

  The loop of \<^verbatim>\<open>write_string\<close> counts with an \<^verbatim>\<open>unsigned int\<close>, a word of 32 bits,
  against \<^verbatim>\<open>written.size()\<close>: on a text of 2^32 characters or more the counter wraps
  around before it reaches the size and the loop never ends. So the loop is a partial
  function over the counter, and \<open>None\<close> stands for a call that does not return, here and
  in every function that writes a string. \<open>put_escaped\<close> is the body of the loop.
\<close>

definition put_escaped :: "string \<Rightarrow> char \<Rightarrow> string" where
  "put_escaped out c =
     (if c = DQ then out @ [BSL, DQ]
      else if c = NL then out @ [BSL, CHR ''n'']
      else if c = BSL then out @ [BSL, BSL]
      else out @ [c])"

partial_function (option) write_string_loop ::
  "string \<Rightarrow> string \<Rightarrow> 32 word \<Rightarrow> string option" where
  "write_string_loop out written i =
     (if unat i < length written
      then write_string_loop (put_escaped out (written ! unat i)) written (i + 1)
      else Some out)"

declare write_string_loop.simps [code]

definition write_string :: "string \<Rightarrow> string \<Rightarrow> string option" where
  "write_string out written =
     map_option (\<lambda>out1. out1 @ [DQ]) (write_string_loop (out @ [DQ]) written 0)"

text \<open>
  The loop of \<^verbatim>\<open>indent\<close> counts with an \<^verbatim>\<open>int\<close> against an \<^verbatim>\<open>int\<close>. The depth is
  only ever counted up from 0, one step for each level of nesting, so it is a natural
  number.
\<close>

definition indent :: "string \<Rightarrow> nat \<Rightarrow> string" where
  "indent out depth = out @ replicate depth TAB"

text \<open>
  The virtual method \<^verbatim>\<open>write(std::ostream&, int)\<close>, one equation per class. Two things
  come from outside the file and are parameters: \<open>render\<close>, the text that
  \<^verbatim>\<open>out << value_\<close> prints for a \<^verbatim>\<open>double\<close>, and \<open>order\<close>, the sequence in which an
  \<^verbatim>\<open>unordered_map\<close> iterates the keys it holds (empty exactly when the map is).
\<close>

primrec write_node ::
  "('d \<Rightarrow> string) \<Rightarrow> ((string \<Rightarrow> 'd JsonNode option) \<Rightarrow> string list) \<Rightarrow> 'd JsonNode
     \<Rightarrow> string \<Rightarrow> nat \<Rightarrow> string option" where
  "write_node render order JsonNode = (\<lambda>out depth. Some (out @ ''null''))"
| "write_node render order (JsonString contents) = (\<lambda>out depth. write_string out contents)"
| "write_node render order (JsonDouble v) = (\<lambda>out depth. Some (out @ render v))"
| "write_node render order (JsonBool v) =
     (\<lambda>out depth. Some (out @ (if v then ''true'' else ''false'')))"
| "write_node render order (JsonObject contents) = (\<lambda>out depth.
     if order contents = [] then Some (out @ ''{}'')
     else
       Option.bind
         (fold
            (\<lambda>name acc.
               Option.bind acc (\<lambda>(o1, first_ele).
                 let o2 = (if first_ele then o1 else o1 @ [CHR '','', NL]) in
                 Option.bind (write_string (indent o2 (depth + 1)) name) (\<lambda>o3.
                   map_option (\<lambda>o4. (o4, False))
                     (case (map_option (write_node render order) \<circ> contents) name of
                        None \<Rightarrow> Some (o3 @ '': '')
                      | Some w \<Rightarrow> w (o3 @ '': '') (depth + 1)))))
            (order contents) (Some (out @ [CHR ''{'', NL], True)))
         (\<lambda>(out1, first_ele). Some (indent (out1 @ [NL]) depth @ ''}'')))"
| "write_node render order (JsonArray contents) = (\<lambda>out depth.
     if contents = [] then Some (out @ ''[]'')
     else
       Option.bind
         (fold
            (\<lambda>w acc.
               Option.bind acc
                 (\<lambda>o1. w (indent (indent (o1 @ [NL]) depth) depth) (depth + 1)))
            (map (write_node render order) contents) (Some (out @ ''['')))
         (\<lambda>out1. Some (indent (out1 @ [NL]) depth @ '']'')))"

text \<open>
  \<^verbatim>\<open>write_to_file\<close>: the paths that can be opened for writing are a predicate.
\<close>

definition write_to_file ::
  "('d \<Rightarrow> string) \<Rightarrow> ((string \<Rightarrow> 'd JsonNode option) \<Rightarrow> string list) \<Rightarrow> (string \<Rightarrow> bool)
     \<Rightarrow> 'd JsonNode \<Rightarrow> string \<Rightarrow> (error + string) option" where
  "write_to_file render order writable node filename =
     (if \<not> writable filename then Some (Inl could_not_write_to_file)
      else map_option Inr (write_node render order node [] 0))"

text \<open>
  Writing a value to an empty output and parsing the text again.
\<close>

definition reparse ::
  "('d \<Rightarrow> string) \<Rightarrow> (string \<Rightarrow> 'd) \<Rightarrow> 'd JsonNode \<Rightarrow> (error + 'd JsonNode) option" where
  "reparse render stod v =
     Option.bind (write_node render (\<lambda>m. []) v [] 0)
       (\<lambda>txt. map_option (map_sum id fst) (parse_json stod (istream_of txt)))"

text \<open>
  The strings for which the specification promises a round trip, in its words: no raw
  double quote, no raw backslash, and no control character other than the newline.
\<close>

definition is_control :: "char \<Rightarrow> bool" where
  "is_control c \<longleftrightarrow> of_char c < (32::nat) \<or> of_char c = (127::nat)"

definition supported_text :: "string \<Rightarrow> bool" where
  "supported_text txt \<longleftrightarrow>
     list_all (\<lambda>c. c \<noteq> DQ \<and> c \<noteq> BSL \<and> (c = NL \<or> \<not> is_control c)) txt"

section \<open>Rules for running the parser\<close>

text \<open>
  The defining equations of the loops are unconditional, so the simplifier does not get
  them as they are. The rules below unfold a loop one step at a time, on a stream whose
  next character is known.
\<close>

declare read_whitespace.simps [simp del] scan_number.simps [simp del]

lemma not_separator_eof: "\<not> is_separator (CHR 0xFF)"
  by (simp add: is_separator_def)

lemma not_numeric_eof: "\<not> is_numeric (CHR 0xFF)"
  by (simp add: is_numeric_def is_digit_def)

lemma read_whitespace_eval:
  "read_whitespace (Istream k p True) = (CHR 0xFF, Istream k p True)"
  "read_whitespace (Istream k [] False) = (CHR 0xFF, Istream k [] True)"
  "read_whitespace (Istream k (c # cs) False) =
     (if is_separator c then read_whitespace (Istream (c # k) cs False)
      else (c, Istream (c # k) cs False))"
  by (subst read_whitespace.simps, simp add: not_separator_eof)+

lemma scan_number_eval:
  "scan_number a (Istream k p True) = (a @ [CHR 0xFF], Istream k p True)"
  "scan_number a (Istream k [] False) = (a @ [CHR 0xFF], Istream k [] True)"
  "scan_number a (Istream k (c # cs) False) =
     (if is_numeric c then scan_number (a @ [c]) (Istream (c # k) cs False)
      else (a @ [c], Istream (c # k) cs False))"
  by (subst scan_number.simps, simp add: not_numeric_eof)+

lemma read_string_loop_eval:
  "read_string_loop DQ collected s = Some (collected, s)"
  "letter \<noteq> DQ \<Longrightarrow> letter \<noteq> BSL \<Longrightarrow>
     read_string_loop letter collected s =
       (let (c, s2) = istream_get s in read_string_loop (to_char c) (collected @ [letter]) s2)"
  "read_string_loop BSL collected s =
       (let (collected1, s1) = read_escape collected s; (c, s2) = istream_get s1
        in read_string_loop (to_char c) collected1 s2)"
  by (subst read_string_loop.simps, simp)+

lemma parse_json_unfold:
  "parse_json stod s =
          (let (letter, s1) = read_whitespace s in
           if letter = CHR 0x00 \<or> letter = CHR 0xFF then Some (Inr (JsonNode, s1))
           else if letter = DQ then
             Option.bind (read_string s1)
               (\<lambda>(collected, s2). Some (Inr (JsonString collected, s2)))
           else if letter = CHR ''t'' then
             (let (ok, s2) = expect ''rue'' s1 in
              if ok then Some (Inr (JsonBool True, s2)) else Some (Inl misspelled_true))
           else if letter = CHR ''f'' then
             (let (ok, s2) = expect ''alse'' s1 in
              if ok then Some (Inr (JsonBool False, s2)) else Some (Inl misspelled_false))
           else if letter = CHR ''n'' then
             (let (ok, s2) = expect ''ull'' s1 in
              if ok then Some (Inr (JsonNode, s2)) else Some (Inl misspelled_null))
           else if letter = CHR ''-'' \<or> is_digit letter then
             (let (asString, s2) = scan_number [letter] s1 in
              Some (Inr (JsonDouble (stod asString), unget s2)))
           else if letter = CHR ''{'' then object_loop stod Map.empty s1
           else if letter = CHR ''['' then array_loop stod [] s1
           else Some (Inl unexpected_character))"
  unfolding parse_json_def object_loop_def array_loop_def
  by (subst parse_task.simps) simp

lemma object_loop_unfold:
  "object_loop stod contents s =
          (let (letter, s1) = read_whitespace s in
           if letter = DQ then
             Option.bind (read_string s1) (\<lambda>(name, s2).
               let (letter2, s3) = read_whitespace s2 in
               if letter2 \<noteq> CHR '':'' then Some (Inl expected_colon)
               else Option.bind (parse_json stod s3) (\<lambda>r.
                 case r of
                   Inl e \<Rightarrow> Some (Inl e)
                 | Inr (v, s4) \<Rightarrow>
                     if letter2 \<noteq> CHR ''}''
                     then object_loop stod (contents(name \<mapsto> v)) s4
                     else Some (Inr (JsonObject (contents(name \<mapsto> v)), s4))))
           else Some (Inr (JsonObject contents, s1)))"
  unfolding parse_json_def object_loop_def array_loop_def
  by (subst parse_task.simps) simp

lemma array_loop_unfold:
  "array_loop stod contents s =
          (let (letter, s1) = read_whitespace s in
           if letter = CHR ''{'' then
             Option.bind (parse_json stod (unget s1)) (\<lambda>r.
               case r of
                 Inl e \<Rightarrow> Some (Inl e)
               | Inr (v, s2) \<Rightarrow>
                   if letter \<noteq> CHR '']''
                   then array_loop stod (contents @ [v]) s2
                   else Some (Inr (JsonArray (contents @ [v]), s2)))
           else Some (Inr (JsonArray contents, s1)))"
  unfolding parse_json_def object_loop_def array_loop_def
  by (subst parse_task.simps) simp

lemmas parse_eval = parse_json_unfold object_loop_unfold array_loop_unfold
  read_whitespace_eval scan_number_eval read_string_loop_eval read_string_def read_escape_def
  istream_of_def is_separator_def is_numeric_def is_digit_def

lemma read_whitespace_skip:
  "list_all is_separator ws \<Longrightarrow> \<not> is_separator c \<Longrightarrow>
   read_whitespace (Istream k (ws @ c # rest) False) = (c, Istream (c # rev ws @ k) rest False)"
  by (induction ws arbitrary: k) (simp_all add: read_whitespace_eval)

lemma scan_number_run:
  "list_all is_numeric body \<Longrightarrow> \<not> is_numeric t \<Longrightarrow>
   scan_number a (Istream k (body @ t # rest) False)
     = (a @ body @ [t], Istream (t # rev body @ k) rest False)"
  by (induction body arbitrary: a k) (simp_all add: scan_number_eval)

lemma read_string_loop_plain:
  "DQ \<notin> set cs \<Longrightarrow> BSL \<notin> set cs \<Longrightarrow> letter \<noteq> DQ \<Longrightarrow> letter \<noteq> BSL \<Longrightarrow>
   read_string_loop letter collected (Istream k (cs @ DQ # rest) False)
     = Some (collected @ letter # cs, Istream (DQ # rev cs @ k) rest False)"
proof (induction cs arbitrary: letter collected k)
  case Nil
  then show ?case by (simp add: read_string_loop_eval)
next
  case (Cons a cs)
  have "read_string_loop letter collected (Istream k ((a # cs) @ DQ # rest) False)
          = read_string_loop a (collected @ [letter]) (Istream (a # k) (cs @ DQ # rest) False)"
    using Cons.prems by (subst read_string_loop_eval(2)) simp_all
  also have "\<dots> = Some ((collected @ [letter]) @ a # cs, Istream (DQ # rev cs @ a # k) rest False)"
    using Cons.prems by (intro Cons.IH) auto
  finally show ?case by simp
qed

lemma read_string_plain:
  "DQ \<notin> set cs \<Longrightarrow> BSL \<notin> set cs \<Longrightarrow>
   read_string (Istream k (cs @ DQ # rest) False)
     = Some (cs, Istream (DQ # rev cs @ k) rest False)"
proof (cases cs)
  case Nil
  then show ?thesis by (simp add: read_string_def read_string_loop_eval)
next
  case (Cons a as)
  assume "DQ \<notin> set cs" "BSL \<notin> set cs"
  with Cons have "DQ \<notin> set as" "BSL \<notin> set as" "a \<noteq> DQ" "a \<noteq> BSL" by auto
  from read_string_loop_plain [OF this, of "[]" "a # k" rest] Cons
  show ?thesis by (simp add: read_string_def)
qed

lemma write_string_loop_run:
  "length written < 2 ^ 32 \<Longrightarrow> unat i \<le> length written \<Longrightarrow>
   write_string_loop out written i = Some (foldl put_escaped out (drop (unat i) written))"
proof (induction "length written - unat i" arbitrary: i out)
  case 0
  then show ?case by (subst write_string_loop.simps) simp
next
  case (Suc n)
  from Suc.hyps(2) have lt: "unat i < length written" by simp
  with Suc.prems(1) have "unat i + unat (1 :: 32 word) < 2 ^ LENGTH(32)" by simp
  then have "unat (i + 1) = unat i + unat (1 :: 32 word)" by (rule unat_add_lem [THEN iffD1])
  then have u: "unat (i + 1) = unat i + 1" by simp
  with Suc.hyps(2) lt have "n = length written - unat (i + 1)" "unat (i + 1) \<le> length written"
    by simp_all
  from Suc.hyps(1) [OF this(1) Suc.prems(1) this(2)] u lt show ?case
    by (subst write_string_loop.simps) (simp add: Cons_nth_drop_Suc [symmetric])
qed

lemma write_string_run:
  "length written < 2 ^ 32 \<Longrightarrow>
   write_string out written = Some (foldl put_escaped (out @ [DQ]) written @ [DQ])"
  by (simp add: write_string_def write_string_loop_run)

lemma foldl_put_escaped_plain:
  "DQ \<notin> set cs \<Longrightarrow> BSL \<notin> set cs \<Longrightarrow> NL \<notin> set cs \<Longrightarrow> foldl put_escaped out cs = out @ cs"
  by (induction cs arbitrary: out) (auto simp: put_escaped_def)

lemma digit_not_special:
  "is_digit c \<Longrightarrow> c \<noteq> CHR 0x00 \<and> c \<noteq> CHR 0xFF \<and> c \<noteq> DQ \<and> c \<noteq> CHR ''t'' \<and> c \<noteq> CHR ''f''
     \<and> c \<noteq> CHR ''n'' \<and> \<not> is_separator c"
  by (auto simp: is_digit_def is_separator_def)

lemma number_letter_dispatch:
  assumes "c0 = CHR ''-'' \<or> is_digit c0"
  shows "c0 \<noteq> CHR 0x00 \<and> c0 \<noteq> CHR 0xFF \<and> c0 \<noteq> DQ \<and> c0 \<noteq> CHR ''t'' \<and> c0 \<noteq> CHR ''f''
     \<and> c0 \<noteq> CHR ''n'' \<and> \<not> is_separator c0"
  using assms digit_not_special [of c0] by (auto simp: is_separator_def)

section \<open>The string loop on an input without a closing quote\<close>

text \<open>
  If the loop of \<^verbatim>\<open>read_string\<close> returns, then either it was entered on a double quote
  or a double quote was still to come on a stream in good state. The proof is by the
  induction rule of the partial function: a property of every returning call.
\<close>

lemma istream_get_back:
  "istream_get s = (c, s1) \<Longrightarrow> to_char c = DQ \<or> (DQ \<in> set (pending s1) \<and> \<not> failbit s1) \<Longrightarrow>
   DQ \<in> set (pending s) \<and> \<not> failbit s"
  by (cases s rule: istream_get.cases) auto

lemma read_escape_back:
  assumes "read_escape collected s = (collected1, s1)"
    and "DQ \<in> set (pending s1) \<and> \<not> failbit s1"
  shows "DQ \<in> set (pending s) \<and> \<not> failbit s"
proof -
  obtain c1 t1 where g1: "istream_get s = (c1, t1)" by (cases "istream_get s")
  obtain c2 t2 where g2: "istream_get t1 = (c2, t2)" by (cases "istream_get t1")
  obtain c3 t3 where g3: "istream_get t2 = (c3, t3)" by (cases "istream_get t2")
  from assms g1 g2 g3 have "s1 = t1 \<or> s1 = t2 \<or> s1 = t3"
    by (auto simp: read_escape_def split: if_splits)
  with assms(2) istream_get_back [OF g3] istream_get_back [OF g2] istream_get_back [OF g1]
  show ?thesis by blast
qed

lemma read_string_loop_returns:
  assumes "read_string_loop letter0 collected0 s0 = Some y0"
  shows "letter0 = DQ \<or> (DQ \<in> set (pending s0) \<and> \<not> failbit s0)"
proof (rule read_string_loop.raw_induct
    [where P = "\<lambda>letter collected s y. letter = DQ \<or> (DQ \<in> set (pending s) \<and> \<not> failbit s)",
      OF _ assms])
  fix loop :: "char \<Rightarrow> string \<Rightarrow> istream \<Rightarrow> (string \<times> istream) option"
    and letter collected s y
  assume IH: "\<And>letter collected s y. loop letter collected s = Some y \<Longrightarrow>
      letter = DQ \<or> (DQ \<in> set (pending s) \<and> \<not> failbit s)"
    and body: "(if letter \<noteq> DQ then
        (let (collected1, s1) =
               (if letter = BSL then read_escape collected s
                else (collected @ [letter], s));
             (c, s2) = istream_get s1
         in loop (to_char c) collected1 s2)
      else Some (collected, s)) = Some y"
  show "letter = DQ \<or> (DQ \<in> set (pending s) \<and> \<not> failbit s)"
  proof (cases "letter = DQ")
    case True
    then show ?thesis by simp
  next
    case False
    obtain collected1 s1 where b: "(if letter = BSL then read_escape collected s
        else (collected @ [letter], s)) = (collected1, s1)"
      by (cases "if letter = BSL then read_escape collected s else (collected @ [letter], s)")
    obtain c s2 where g: "istream_get s1 = (c, s2)" by (cases "istream_get s1")
    from body False b g have "loop (to_char c) collected1 s2 = Some y" by simp
    from IH [OF this] istream_get_back [OF g]
    have s1: "DQ \<in> set (pending s1) \<and> \<not> failbit s1" by blast
    show ?thesis
    proof (cases "letter = BSL")
      case True
      with b have "read_escape collected s = (collected1, s1)" by simp
      from read_escape_back [OF this s1] show ?thesis by simp
    next
      case False
      with b s1 show ?thesis by simp
    qed
  qed
qed

lemma read_string_diverges:
  "DQ \<notin> set (pending s) \<Longrightarrow> read_string s = None"
proof (rule ccontr)
  assume nq: "DQ \<notin> set (pending s)" and "read_string s \<noteq> None"
  then obtain y where y: "read_string s = Some y" by auto
  obtain c s1 where g: "istream_get s = (c, s1)" by (cases "istream_get s")
  from y g have "read_string_loop (to_char c) [] s1 = Some y" by (simp add: read_string_def)
  from read_string_loop_returns [OF this] istream_get_back [OF g] nq show False by blast
qed

section \<open>Writing and reading back\<close>

text \<open>
  Apart from the escapes, writing and parsing are inverse: a string of fewer than 2^32
  characters that holds no double quote, no backslash and no newline, a Boolean and the
  null value all come back as they were.
\<close>

lemma reparse_string:
  assumes "length c < 2 ^ 32" "DQ \<notin> set c" "BSL \<notin> set c" "NL \<notin> set c"
  shows "reparse render stod (JsonString c) = Some (Inr (JsonString c))"
proof -
  from assms have "write_node render (\<lambda>m. []) (JsonString c) [] 0 = Some (DQ # c @ [DQ])"
    by (simp add: write_string_run foldl_put_escaped_plain)
  moreover from assms
  have "read_string (Istream [DQ] (c @ DQ # []) False) = Some (c, Istream (DQ # rev c @ [DQ]) [] False)"
    using read_string_plain [of c "[DQ]" "[]"] by simp
  ultimately show ?thesis
    by (simp add: reparse_def istream_of_def parse_json_unfold read_whitespace_eval is_separator_def)
qed

lemma reparse_bool: "reparse render stod (JsonBool b) = Some (Inr (JsonBool b))"
  by (cases b) (simp_all add: reparse_def parse_eval)

lemma reparse_null: "reparse render stod JsonNode = Some (Inr JsonNode)"
  by (simp add: reparse_def parse_eval)

section \<open>The claims\<close>

text \<open>
  C1. The claim: parsing the text \<^verbatim>\<open>"line1\nline2"\<close> gives a string with a newline in
  place of the escape, and a backslash followed by any other character drops exactly
  that character. The code does otherwise. The serializer does print a newline as
  backslash, n. The parser, after the backslash, extracts the \<open>n\<close> for the comparison
  with the double quote, then the \<open>l\<close> for the comparison with \<open>n\<close>, then the \<open>i\<close> for the
  comparison with the backslash, and appends nothing: the string it returns is
  \<open>line1ne2\<close>. The theorem runs the code on that input.
\<close>

theorem escape_n_eats_following_characters:
  \<open>parse_json stod (istream_of (''"line1'' @ [BSL] @ ''nline2"''))
     = Some (Inr (JsonString ''line1ne2'',
                  Istream (rev (''"line1'' @ [BSL] @ ''nline2"'')) [] False))
   \<and> write_string [] ''line1\<newline>line2'' = Some (''"line1'' @ [BSL] @ ''nline2"'')
   \<and> read_escape collected (Istream k (CHR ''n'' # CHR ''l'' # CHR ''i'' # rest) False)
     = (collected, Istream (CHR ''i'' # CHR ''l'' # CHR ''n'' # k) rest False)\<close>
  by (simp add: parse_eval write_string_run put_escaped_def)

text \<open>
  C2. The claim: for every flat value (a string whose payload holds no raw double quote,
  no raw backslash and no control character other than the newline, a number, a Boolean,
  null), writing the value and parsing the text gives the value back. The code does
  otherwise on a string with a newline: the payload \<open>line1\<close>, newline, \<open>line2\<close> is in
  that alphabet, the serializer prints the newline as backslash, n, and the parser, whose
  escape branch extracts three characters and appends none, returns \<open>line1ne2\<close>. The
  theorem runs the serializer and then the parser on that value, whatever the rendering
  and the conversion of numbers are.
\<close>

theorem roundtrip_newline_string_fails:
  \<open>supported_text ''line1\<newline>line2''
   \<and> write_node render order (JsonString ''line1\<newline>line2'') [] 0
       = Some (''"line1'' @ [BSL] @ ''nline2"'')
   \<and> reparse render stod (JsonString ''line1\<newline>line2'')
       = Some (Inr (JsonString ''line1ne2''))
   \<and> JsonString ''line1ne2'' \<noteq> (JsonString ''line1\<newline>line2'' :: 'd JsonNode)\<close>
  by (simp add: supported_text_def is_control_def reparse_def write_string_run put_escaped_def
      parse_eval)

text \<open>
  C3. The claim: \<^verbatim>\<open>parse_json\<close> terminates on every finite input, an unterminated
  string included. The code does otherwise: on an opening double quote followed by any
  text that holds no further double quote, the call does not return. At the end of the
  input \<^verbatim>\<open>letter\<close> is the byte 0xFF for ever and the loop keeps appending it.
\<close>

theorem unterminated_string_never_returns:
  "DQ \<notin> set txt \<Longrightarrow> parse_json stod (istream_of (DQ # txt)) = None"
  by (simp add: parse_json_unfold istream_of_def read_whitespace_eval is_separator_def
      read_string_diverges)

theorem unterminated_string_never_returns_witness:
  \<open>DQ \<notin> set ''abc'' \<and> parse_json text_to_double (istream_of ''"abc'') = None\<close>
  using unterminated_string_never_returns [of "''abc''" text_to_double] by simp

text \<open>
  C4. Parsing \<^verbatim>\<open>[1,2,3]\<close> returns an array with no element, and parsing
  \<^verbatim>\<open>[{"x":1},{"y":2}]\<close> returns an array of exactly two objects in the order of the
  input (each number is what the conversion makes of the scanned text, \<^verbatim>\<open>1}\<close> and
  \<^verbatim>\<open>2}\<close>). In general the array loop, when the next significant character is not an
  opening brace, returns the elements read so far and enters nothing.
\<close>

theorem array_of_objects_only:
  \<open>map_option (map_sum id fst) (parse_json stod (istream_of ''[1,2,3]''))
     = Some (Inr (JsonArray []))
   \<and> map_option (map_sum id fst) (parse_json stod (istream_of ''[{"x":1},{"y":2}]''))
     = Some (Inr (JsonArray [JsonObject [''x'' \<mapsto> JsonDouble (stod ''1}'')],
                             JsonObject [''y'' \<mapsto> JsonDouble (stod ''2}'')]]))
   \<and> (fst (read_whitespace s) \<noteq> CHR ''{'' \<longrightarrow>
        map_option (map_sum id fst) (array_loop stod contents s)
          = Some (Inr (JsonArray contents)))\<close>
proof -
  have "fst (read_whitespace s) \<noteq> CHR ''{'' \<longrightarrow>
        map_option (map_sum id fst) (array_loop stod contents s)
          = Some (Inr (JsonArray contents))"
    by (simp add: array_loop_unfold split: prod.split)
  then show ?thesis by (simp add: parse_eval)
qed

theorem array_of_objects_only_witness:
  \<open>fst (read_whitespace (istream_of ''1,2,3]'')) \<noteq> CHR ''{''
   \<and> map_option (map_sum id fst) (array_loop text_to_double [] (istream_of ''1,2,3]''))
     = Some (Inr (JsonArray []))
   \<and> map_option (map_sum id fst)
        (parse_json text_to_double (istream_of ''[{"x":1},{"y":2}]''))
     = Some (Inr (JsonArray [JsonObject [''x'' \<mapsto> JsonDouble 1],
                             JsonObject [''y'' \<mapsto> JsonDouble 2]]))\<close>
  using array_of_objects_only [of text_to_double "istream_of ''1,2,3]''" "[]"]
  by (simp add: istream_of_def read_whitespace_eval is_separator_def text_to_double_def is_digit_def)

text \<open>
  C5. On a stream in good state that holds separators, then a minus sign or a digit,
  then characters the scan accepts, then a character \<open>t\<close> that the scan does not accept,
  \<^verbatim>\<open>parse_json\<close> returns the number that the conversion makes of the scanned text with
  \<open>t\<close> appended, which is the number of the numeral whenever the conversion ignores the
  appended \<open>t\<close>; it has extracted exactly the characters before \<open>t\<close>, and the next
  \<^verbatim>\<open>get()\<close> returns \<open>t\<close>. So \<^verbatim>\<open>{"a":42}\<close> parses to the object that maps \<open>a\<close> to
  42: the object loop sees the closing brace.
\<close>

theorem number_scan_pushes_terminator_back:
  assumes "list_all is_separator ws" and "c0 = CHR ''-'' \<or> is_digit c0"
    and "list_all is_numeric body" and "\<not> is_numeric t"
  shows \<open>parse_json stod (Istream k (ws @ c0 # body @ t # rest) False)
           = Some (Inr (JsonDouble (stod (c0 # body @ [t])),
                        Istream (rev body @ c0 # rev ws @ k) (t # rest) False))
         \<and> (stod (c0 # body @ [t]) = stod (c0 # body) \<longrightarrow>
            parse_json stod (Istream k (ws @ c0 # body @ t # rest) False)
              = Some (Inr (JsonDouble (stod (c0 # body)),
                           Istream (rev body @ c0 # rev ws @ k) (t # rest) False)))
         \<and> istream_get (Istream (rev body @ c0 # rev ws @ k) (t # rest) False)
           = (Some t, Istream (t # rev body @ c0 # rev ws @ k) rest False)
         \<and> parse_json text_to_double (istream_of ''{"a":42}'')
           = Some (Inr (JsonObject [''a'' \<mapsto> JsonDouble 42],
                        Istream (rev ''{"a":42}'') [] False))\<close>
proof -
  note d = number_letter_dispatch [OF assms(2)]
  from d assms(1) have "read_whitespace (Istream k (ws @ c0 # body @ t # rest) False)
      = (c0, Istream (c0 # rev ws @ k) (body @ t # rest) False)"
    by (simp add: read_whitespace_skip)
  moreover from assms(3,4)
  have "scan_number [c0] (Istream (c0 # rev ws @ k) (body @ t # rest) False)
      = (c0 # body @ [t], Istream (t # rev body @ c0 # rev ws @ k) rest False)"
    by (simp add: scan_number_run)
  ultimately have "parse_json stod (Istream k (ws @ c0 # body @ t # rest) False)
           = Some (Inr (JsonDouble (stod (c0 # body @ [t])),
                        Istream (rev body @ c0 # rev ws @ k) (t # rest) False))"
    using d assms(2) by (simp add: parse_json_unfold)
  moreover have \<open>parse_json text_to_double (istream_of ''{"a":42}'')
           = Some (Inr (JsonObject [''a'' \<mapsto> JsonDouble 42],
                        Istream (rev ''{"a":42}'') [] False))\<close>
    by (simp add: parse_eval text_to_double_def)
  ultimately show ?thesis by simp
qed

theorem number_scan_pushes_terminator_back_witness:
  \<open>list_all is_separator '' '' \<and> is_digit CHR ''4'' \<and> list_all is_numeric ''2'' \<and> \<not> is_numeric CHR ''}''
   \<and> text_to_double ''42}'' = text_to_double ''42''
   \<and> parse_json text_to_double (Istream ''{'' '' 42}'' False)
       = Some (Inr (JsonDouble (text_to_double ''42''), Istream ''24 {'' ''}'' False))
   \<and> text_to_double ''42'' = 42
   \<and> istream_get (Istream ''24 {'' ''}'' False) = (Some CHR ''}'', Istream ''}24 {'' [] False)\<close>
  using number_scan_pushes_terminator_back
    [of "'' ''" "CHR ''4''" "''2''" "CHR ''}''" text_to_double "''{''" "[]"]
  by (simp add: is_separator_def is_numeric_def is_digit_def text_to_double_def)

text \<open>
  C6. Parsing \<^verbatim>\<open>{"a": 1, "a": 2}\<close> returns an object whose only key is \<open>a\<close>, mapped to
  the number 2. In general one turn of the object loop that reads a key and a value goes
  on with the entries updated at that key: the key then maps to the new value, whatever
  it mapped to before, and no other key is added.
\<close>

theorem object_last_write_wins:
  \<open>parse_json text_to_double (istream_of ''{"a": 1, "a": 2}'')
     = Some (Inr (JsonObject [''a'' \<mapsto> JsonDouble 2],
                  Istream (rev ''{"a": 1, "a": 2}'') [] False))
   \<and> dom [''a'' \<mapsto> JsonDouble (2::real)] = {''a''}
   \<and> (read_whitespace s = (DQ, s1) \<and> read_string s1 = Some (name, s2)
        \<and> read_whitespace s2 = (CHR '':'', s3) \<and> parse_json stod s3 = Some (Inr (v, s4))
      \<longrightarrow> object_loop stod contents s = object_loop stod (contents(name \<mapsto> v)) s4
          \<and> (contents(name \<mapsto> v)) name = Some v
          \<and> dom (contents(name \<mapsto> v)) = insert name (dom contents))\<close>
proof -
  have "read_whitespace s = (DQ, s1) \<and> read_string s1 = Some (name, s2)
        \<and> read_whitespace s2 = (CHR '':'', s3) \<and> parse_json stod s3 = Some (Inr (v, s4))
      \<longrightarrow> object_loop stod contents s = object_loop stod (contents(name \<mapsto> v)) s4"
    by (subst object_loop_unfold) simp
  then show ?thesis by (simp add: parse_eval text_to_double_def)
qed

theorem object_last_write_wins_witness:
  \<open>read_whitespace (Istream [] '' "a": 2}'' False) = (DQ, Istream (rev '' "'') ''a": 2}'' False)
   \<and> read_string (Istream (rev '' "'') ''a": 2}'' False)
       = Some (''a'', Istream (rev '' "a"'') '': 2}'' False)
   \<and> read_whitespace (Istream (rev '' "a"'') '': 2}'' False)
       = (CHR '':'', Istream (rev '' "a":'') '' 2}'' False)
   \<and> parse_json text_to_double (Istream (rev '' "a":'') '' 2}'' False)
       = Some (Inr (JsonDouble 2, Istream (rev '' "a": 2'') ''}'' False))
   \<and> object_loop text_to_double [''a'' \<mapsto> JsonDouble 1] (Istream [] '' "a": 2}'' False)
       = object_loop text_to_double [''a'' \<mapsto> JsonDouble 2] (Istream (rev '' "a": 2'') ''}'' False)
   \<and> object_loop text_to_double [''a'' \<mapsto> JsonDouble 1] (Istream [] '' "a": 2}'' False)
       = Some (Inr (JsonObject [''a'' \<mapsto> JsonDouble 2], Istream (rev '' "a": 2}'') [] False))\<close>
  using object_last_write_wins
    [where s = \<open>Istream [] '' "a": 2}'' False\<close>
       and ?s1.0 = \<open>Istream (rev '' "'') ''a": 2}'' False\<close>
       and name = \<open>''a''\<close>
       and ?s2.0 = \<open>Istream (rev '' "a"'') '': 2}'' False\<close>
       and ?s3.0 = \<open>Istream (rev '' "a":'') '' 2}'' False\<close>
       and stod = text_to_double
       and v = \<open>JsonDouble 2\<close>
       and ?s4.0 = \<open>Istream (rev '' "a": 2'') ''}'' False\<close>
       and contents = \<open>[''a'' \<mapsto> JsonDouble 1]\<close>]
  by (simp add: parse_eval text_to_double_def)

text \<open>
  C7. Parsing \<^verbatim>\<open>{,"a": 1,}\<close> and parsing \<^verbatim>\<open>{"a": 1}\<close> both return the object that
  maps \<open>a\<close> to the number 1. The comma is one of the characters that
  \<^verbatim>\<open>read_whitespace\<close> skips, wherever it is called: on a run of blanks, tabs, newlines
  and commas followed by another character it returns that character, with the run
  extracted.
\<close>

theorem commas_are_separators:
  \<open>parse_json text_to_double (istream_of ''{,"a": 1,}'')
     = Some (Inr (JsonObject [''a'' \<mapsto> JsonDouble 1], Istream (rev ''{,"a": 1,}'') [] False))
   \<and> parse_json text_to_double (istream_of ''{"a": 1}'')
     = Some (Inr (JsonObject [''a'' \<mapsto> JsonDouble 1], Istream (rev ''{"a": 1}'') [] False))
   \<and> is_separator CHR '',''
   \<and> (list_all is_separator ws \<and> \<not> is_separator c \<longrightarrow>
        read_whitespace (Istream k (ws @ c # rest) False)
          = (c, Istream (c # rev ws @ k) rest False))\<close>
proof -
  have "list_all is_separator ws \<and> \<not> is_separator c \<longrightarrow>
        read_whitespace (Istream k (ws @ c # rest) False)
          = (c, Istream (c # rev ws @ k) rest False)"
    by (simp add: read_whitespace_skip)
  then show ?thesis by (simp add: parse_eval text_to_double_def)
qed

theorem commas_are_separators_witness:
  \<open>list_all is_separator '', ,'' \<and> \<not> is_separator CHR ''}''
   \<and> read_whitespace (Istream ''1'' ('', ,'' @ CHR ''}'' # '']'') False)
       = (CHR ''}'', Istream (CHR ''}'' # rev '', ,'' @ ''1'') '']'' False)\<close>
  using commas_are_separators [of "'', ,''" "CHR ''}''" "''1''" "'']''"]
  by (simp add: is_separator_def)

text \<open>
  C8. For a path that cannot be opened, \<^verbatim>\<open>parse_json(filename)\<close> returns the null
  value, whose discriminant is NIL, and throws nothing. For a path that can be opened it
  returns what \<^verbatim>\<open>parse_json\<close> returns on the contents, so an error of the parse
  comes through.
\<close>

theorem missing_file_is_null:
  "(files filename = None \<longrightarrow>
      parse_json_file stod files filename = Some (Inr JsonNode)
      \<and> get_type (JsonNode :: 'd JsonNode) = NIL)
   \<and> (files filename = Some txt \<longrightarrow>
      parse_json_file stod files filename
        = map_option (map_sum id fst) (parse_json stod (istream_of txt)))
   \<and> (files filename = Some txt \<and> parse_json stod (istream_of txt) = Some (Inl e) \<longrightarrow>
      parse_json_file stod files filename = Some (Inl e))"
  by (simp add: parse_json_file_def ifstream_def good_def istream_of_def)

theorem missing_file_is_null_witness:
  "[''good.json'' \<mapsto> ''tru''] ''missing.json'' = None
   \<and> parse_json_file text_to_double [''good.json'' \<mapsto> ''tru''] ''missing.json''
       = Some (Inr JsonNode)
   \<and> [''good.json'' \<mapsto> ''tru''] ''good.json'' = Some ''tru''
   \<and> parse_json text_to_double (istream_of ''tru'') = Some (Inl misspelled_true)
   \<and> parse_json_file text_to_double [''good.json'' \<mapsto> ''tru''] ''good.json''
       = Some (Inl misspelled_true)"
  using missing_file_is_null
      [of "[''good.json'' \<mapsto> ''tru'']" "''missing.json''" text_to_double "''tru''" misspelled_true]
    missing_file_is_null
      [of "[''good.json'' \<mapsto> ''tru'']" "''good.json''" text_to_double "''tru''" misspelled_true]
  by (simp add: parse_eval)

text \<open>
  C9. For every value, an accessor whose variant is not the value's variant fails with a
  type mismatch, and the accessor of the value's own variant returns the payload. The
  string accessor fails on a Boolean and the boolean accessor succeeds on it. The null
  value fails every accessor and its discriminant is NIL.
\<close>

theorem accessor_matches_variant:
  "(get_type v \<noteq> STRING \<longrightarrow> get_string v = Inl not_a_string)
   \<and> (get_type v \<noteq> NUMBER \<longrightarrow> get_double v = Inl not_a_double)
   \<and> (get_type v \<noteq> BOOL \<longrightarrow> get_bool v = Inl not_a_bool)
   \<and> (get_type v \<noteq> ARRAY \<longrightarrow> get_vector v = Inl not_an_array)
   \<and> (get_type v \<noteq> OBJECT \<longrightarrow> get_object v = Inl not_an_object)
   \<and> (get_type v = STRING \<longrightarrow> (\<exists>c. v = JsonString c \<and> get_string v = Inr c))
   \<and> (get_type v = NUMBER \<longrightarrow> (\<exists>d. v = JsonDouble d \<and> get_double v = Inr d))
   \<and> (get_type v = BOOL \<longrightarrow> (\<exists>b. v = JsonBool b \<and> get_bool v = Inr b))
   \<and> (get_type v = ARRAY \<longrightarrow> (\<exists>xs. v = JsonArray xs \<and> get_vector v = Inr xs))
   \<and> (get_type v = OBJECT \<longrightarrow> (\<exists>m. v = JsonObject m \<and> get_object v = Inr m))
   \<and> TypeMismatch not_a_string \<and> TypeMismatch not_a_double \<and> TypeMismatch not_a_bool
   \<and> TypeMismatch not_an_array \<and> TypeMismatch not_an_object
   \<and> get_string (JsonBool b0 :: 'd JsonNode) = Inl not_a_string
   \<and> get_bool (JsonBool b0 :: 'd JsonNode) = Inr b0
   \<and> get_type (JsonNode :: 'd JsonNode) = NIL
   \<and> get_string (JsonNode :: 'd JsonNode) = Inl not_a_string
   \<and> get_double (JsonNode :: 'd JsonNode) = Inl not_a_double
   \<and> get_bool (JsonNode :: 'd JsonNode) = Inl not_a_bool
   \<and> get_vector (JsonNode :: 'd JsonNode) = Inl not_an_array
   \<and> get_object (JsonNode :: 'd JsonNode) = Inl not_an_object"
  by (cases v) simp_all

theorem accessor_matches_variant_witness:
  "get_type (JsonBool True :: real JsonNode) \<noteq> STRING
   \<and> get_string (JsonBool True :: real JsonNode) = Inl not_a_string
   \<and> get_type (JsonBool True :: real JsonNode) = BOOL
   \<and> get_bool (JsonBool True :: real JsonNode) = Inr True"
  using accessor_matches_variant [of "JsonBool True :: real JsonNode" True]
  by simp

text \<open>
  C10. When the array loop skips separators and meets a character other than an opening
  brace, it returns with that character extracted and the rest of the input still to
  come; when it meets an opening brace, it calls \<^verbatim>\<open>parse_json\<close> on the stream with
  the brace put back. After parsing \<^verbatim>\<open>[1,2,3]\<close> the characters \<^verbatim>\<open>,2,3]\<close> are still
  to come and the \<open>1\<close> is gone.
\<close>

theorem array_rejecting_character_consumed:
  \<open>(list_all is_separator ws \<and> \<not> is_separator c \<and> c \<noteq> CHR ''{'' \<longrightarrow>
      array_loop stod contents (Istream k (ws @ c # rest) False)
        = Some (Inr (JsonArray contents, Istream (c # rev ws @ k) rest False)))
   \<and> (list_all is_separator ws \<longrightarrow>
      array_loop stod contents (Istream k (ws @ CHR ''{'' # rest) False)
        = Option.bind (parse_json stod (Istream (rev ws @ k) (CHR ''{'' # rest) False))
            (\<lambda>r. case r of
                   Inl e \<Rightarrow> Some (Inl e)
                 | Inr (v, s2) \<Rightarrow> array_loop stod (contents @ [v]) s2))
   \<and> parse_json stod (istream_of ''[1,2,3]'')
       = Some (Inr (JsonArray [], Istream ''1['' '',2,3]'' False))\<close>
proof -
  have a: "list_all is_separator ws \<and> \<not> is_separator c \<and> c \<noteq> CHR ''{'' \<longrightarrow>
      array_loop stod contents (Istream k (ws @ c # rest) False)
        = Some (Inr (JsonArray contents, Istream (c # rev ws @ k) rest False))"
    by (simp add: array_loop_unfold read_whitespace_skip)
  have "\<not> is_separator (CHR ''{'')" by (simp add: is_separator_def)
  then have b: "list_all is_separator ws \<longrightarrow>
      array_loop stod contents (Istream k (ws @ CHR ''{'' # rest) False)
        = Option.bind (parse_json stod (Istream (rev ws @ k) (CHR ''{'' # rest) False))
            (\<lambda>r. case r of
                   Inl e \<Rightarrow> Some (Inl e)
                 | Inr (v, s2) \<Rightarrow> array_loop stod (contents @ [v]) s2)"
    by (subst array_loop_unfold) (simp add: read_whitespace_skip)
  have c: \<open>parse_json stod (istream_of ''[1,2,3]'')
       = Some (Inr (JsonArray [], Istream ''1['' '',2,3]'' False))\<close>
    by (simp add: parse_eval)
  from a b c show ?thesis by blast
qed

theorem array_rejecting_character_consumed_witness:
  \<open>list_all is_separator '' '' \<and> \<not> is_separator CHR ''1'' \<and> CHR ''1'' \<noteq> CHR ''{''
   \<and> array_loop text_to_double [] (Istream ''['' ('' '' @ CHR ''1'' # '',2,3]'') False)
     = Some (Inr (JsonArray [], Istream (CHR ''1'' # rev '' '' @ ''['') '',2,3]'' False))\<close>
  using array_rejecting_character_consumed
    [of "'' ''" "CHR ''1''" text_to_double "[]" "''[''" "'',2,3]''"]
  by (simp add: is_separator_def)

end
